theory Spec2Isabelle
  imports Main "HOL-Library.AList"
begin

section \<open>MEDISCOPE lab microservice: \<^verbatim>\<open>Server/LabMicroservice.py\<close>\<close>

text \<open>
  The service has three functions: \<^verbatim>\<open>extract_text\<close> (OCR for images, text layer for
  everything else), \<^verbatim>\<open>summarize_with_gemini\<close> (a remote summarisation call) and the Flask
  handler \<^verbatim>\<open>parse\<close>. The OCR engine, the PDF reader, the remote service, the file system
  and werkzeug's \<^verbatim>\<open>secure_filename\<close> are not part of the repository; they are parameters
  of the model (the record \<open>env\<close>), and every theorem holds for all of them.
\<close>

subsection \<open>Python strings\<close>

text \<open>
  A Python \<^verbatim>\<open>str\<close> is a sequence of Unicode code points, and \<^verbatim>\<open>len\<close> and slicing count
  code points: a string is a list of code points. \<open>lit\<close> embeds an ASCII literal.
\<close>

type_synonym ustr = "nat list"

type_synonym bytes = "char list"

definition lit :: "string \<Rightarrow> ustr" where
  "lit cs = map of_char cs"

definition newline :: ustr where
  "newline = [10]"

text \<open>
  The characters that \<^verbatim>\<open>str.strip()\<close> removes (those for which \<^verbatim>\<open>str.isspace\<close> holds):
  U+0009..U+000D, U+001C..U+0020, U+0085, U+00A0, U+1680, U+2000..U+200A, U+2028, U+2029,
  U+202F, U+205F, U+3000.
\<close>

definition py_isspace :: "nat \<Rightarrow> bool" where
  "py_isspace c \<longleftrightarrow>
     (9 \<le> c \<and> c \<le> 13) \<or> (28 \<le> c \<and> c \<le> 32) \<or> c = 133 \<or> c = 160 \<or> c = 5760 \<or>
     (8192 \<le> c \<and> c \<le> 8202) \<or> c = 8232 \<or> c = 8233 \<or> c = 8239 \<or> c = 8287 \<or> c = 12288"

definition py_strip :: "ustr \<Rightarrow> ustr" where
  "py_strip s = rev (dropWhile py_isspace (rev (dropWhile py_isspace s)))"

text \<open>\<^verbatim>\<open>sep.join(xs)\<close>\<close>

fun str_join :: "ustr \<Rightarrow> ustr list \<Rightarrow> ustr" where
  "str_join sep [] = []"
| "str_join sep [x] = x"
| "str_join sep (x # y # ys) = x @ sep @ str_join sep (y # ys)"

text \<open>
  \<^verbatim>\<open>str.lower()\<close>: on a string of ASCII characters it maps \<^verbatim>\<open>A..Z\<close> to \<^verbatim>\<open>a..z\<close>; on
  any other string the result comes from the Unicode tables of the runtime, which is the
  parameter \<open>unicode_lower\<close>.
\<close>

definition ascii_lower :: "nat \<Rightarrow> nat" where
  "ascii_lower c = (if 65 \<le> c \<and> c \<le> 90 then c + 32 else c)"

definition str_lower :: "(ustr \<Rightarrow> ustr) \<Rightarrow> ustr \<Rightarrow> ustr" where
  "str_lower unicode_lower s =
     (if list_all (\<lambda>c. c < 128) s then map ascii_lower s else unicode_lower s)"

subsection \<open>\<^verbatim>\<open>os.path\<close> (POSIX)\<close>

text \<open>\<^verbatim>\<open>p.rfind(c)\<close> for a single character: the last index of \<open>c\<close>, or \<open>-1\<close>.\<close>

definition rfind :: "nat \<Rightarrow> ustr \<Rightarrow> int" where
  "rfind c p =
     (if c \<in> set p then int (length p) - 1 - int (length (takeWhile (\<lambda>x. x \<noteq> c) (rev p)))
      else - 1)"

text \<open>
  \<^verbatim>\<open>os.path.splitext\<close>: the extension starts at the last dot of the last path component,
  unless that component has only dots before it.
\<close>

definition splitext :: "ustr \<Rightarrow> ustr \<times> ustr" where
  "splitext p =
     (let sepIndex = rfind 47 p;
          dotIndex = rfind 46 p
      in if dotIndex > sepIndex \<and>
            list_ex (\<lambda>c. c \<noteq> 46)
              (take (nat dotIndex - nat (sepIndex + 1)) (drop (nat (sepIndex + 1)) p))
         then (take (nat dotIndex) p, drop (nat dotIndex) p)
         else (p, []))"

text \<open>\<^verbatim>\<open>os.path.join(a, b)\<close>\<close>

definition path_join :: "ustr \<Rightarrow> ustr \<Rightarrow> ustr" where
  "path_join a b =
     (if b \<noteq> [] \<and> hd b = 47 then b
      else if a = [] \<or> last a = 47 then a @ b
      else a @ [47] @ b)"

subsection \<open>Exceptions, the environment and the state\<close>

text \<open>
  \<^verbatim>\<open>except Exception\<close> catches the exceptions whose class derives from \<^verbatim>\<open>Exception\<close>
  and no other (\<^verbatim>\<open>KeyboardInterrupt\<close>, \<^verbatim>\<open>SystemExit\<close> and \<^verbatim>\<open>GeneratorExit\<close> derive from
  \<^verbatim>\<open>BaseException\<close> only). The argument is \<^verbatim>\<open>str(e)\<close>.
\<close>

datatype exn = Exception ustr | BaseException ustr

text \<open>
  What \<^verbatim>\<open>generate_content\<close> returns: a response whose \<^verbatim>\<open>text\<close> attribute is a string, a
  response without that attribute (\<^verbatim>\<open>hasattr\<close> is false), or a response on which reading
  or trimming \<^verbatim>\<open>text\<close> raises.
\<close>

datatype gen_response = HasText ustr | NoText | TextRaises exn

record env =
  secure_filename :: "ustr \<Rightarrow> ustr"
  unicode_lower :: "ustr \<Rightarrow> ustr"
  Reader :: "exn option"
  readtext :: "ustr \<Rightarrow> bytes option \<Rightarrow> exn + ustr list"
  fitz_pages :: "ustr \<Rightarrow> bytes option \<Rightarrow> exn + ustr list"
  GenerativeModel :: "exn option"
  generate_content :: "ustr \<Rightarrow> exn + gen_response"
  save_error :: "ustr \<Rightarrow> exn option"

text \<open>
  \<open>Reader\<close>: \<^verbatim>\<open>easyocr.Reader(["en"], gpu=False)\<close> raises or succeeds.
  \<open>readtext path content\<close>: \<^verbatim>\<open>ocr_reader.readtext(path, detail=0)\<close> on the file at \<open>path\<close>
  (\<open>None\<close>: no such file) raises or returns the recognised lines.
  \<open>fitz_pages path content\<close>: opening the document and reading \<^verbatim>\<open>page.get_text("text")\<close>
  of each page raises or returns the pages' texts.
  \<open>GenerativeModel\<close>, \<open>generate_content prompt\<close>: the two calls to the remote service's
  client. \<open>save_error path\<close>: \<^verbatim>\<open>FileStorage.save(path)\<close> raises when it cannot open
  \<open>path\<close> for writing.
\<close>

datatype event =
    Save ustr
  | Remove ustr
  | ReaderInit
  | ReadText ustr
  | FitzOpen ustr
  | NewModel
  | GenerateContent ustr

record state =
  fs :: "ustr \<rightharpoonup> bytes"
  ocr_reader :: bool
  calls :: "event list"

text \<open>
  \<open>fs\<close>: the regular files of the file system, by path. \<open>ocr_reader\<close>: the global of that
  name is not \<^verbatim>\<open>None\<close>. \<open>calls\<close>: the calls made so far to the file system, the OCR
  engine, the PDF reader and the remote service, oldest first.
\<close>

definition call :: "event \<Rightarrow> state \<Rightarrow> state" where
  "call e st = st\<lparr>calls := calls st @ [e]\<rparr>"

subsection \<open>\<^verbatim>\<open>extract_text\<close>\<close>

definition image_exts :: "ustr list" where
  "image_exts = [lit ''.jpg'', lit ''.jpeg'', lit ''.png'', lit ''.bmp'', lit ''.tiff'']"

text \<open>Lines 37-40: the OCR branch of the \<^verbatim>\<open>try\<close> block.\<close>

definition ocr_text :: "env \<Rightarrow> ustr \<Rightarrow> state \<Rightarrow> (exn + ustr) \<times> state" where
  "ocr_text E file_path st =
     (let (init, st1) =
            (if ocr_reader st then (None, st)
             else (case Reader E of
                     Some e \<Rightarrow> (Some e, call ReaderInit st)
                   | None \<Rightarrow> (None, (call ReaderInit st)\<lparr>ocr_reader := True\<rparr>)))
      in case init of
           Some e \<Rightarrow> (Inl e, st1)
         | None \<Rightarrow>
            (case readtext E file_path (fs st1 file_path) of
               Inl e \<Rightarrow> (Inl e, call (ReadText file_path) st1)
             | Inr result \<Rightarrow>
                 (Inr (if result \<noteq> [] then str_join newline result else lit ''[No text]''),
                  call (ReadText file_path) st1)))"

text \<open>Lines 42-44: the document branch.\<close>

definition pdf_text :: "env \<Rightarrow> ustr \<Rightarrow> state \<Rightarrow> (exn + ustr) \<times> state" where
  "pdf_text E file_path st =
     (case fitz_pages E file_path (fs st file_path) of
        Inl e \<Rightarrow> (Inl e, call (FitzOpen file_path) st)
      | Inr pages \<Rightarrow>
          (Inr (concat (map (\<lambda>page. page @ newline) pages)), call (FitzOpen file_path) st))"

text \<open>Lines 36-44: the body of the \<^verbatim>\<open>try\<close> block.\<close>

definition extract_body :: "env \<Rightarrow> ustr \<Rightarrow> state \<Rightarrow> (exn + ustr) \<times> state" where
  "extract_body E file_path st =
     (let ext = str_lower (unicode_lower E) (snd (splitext file_path))
      in if ext \<in> set image_exts then ocr_text E file_path st else pdf_text E file_path st)"

text \<open>
  Lines 30-51. \<^verbatim>\<open>gc.collect()\<close> and \<^verbatim>\<open>logging.exception\<close> change nothing the model
  observes.
\<close>

definition extract_text :: "env \<Rightarrow> ustr \<Rightarrow> state \<Rightarrow> (exn + ustr) \<times> state" where
  "extract_text E file_path st =
     (case extract_body E file_path st of
        (Inr text, st') \<Rightarrow> (Inr (py_strip text), st')
      | (Inl (Exception m), st') \<Rightarrow> (Inr (lit ''[Error extracting text: '' @ m @ lit '']''), st')
      | (Inl (BaseException m), st') \<Rightarrow> (Inl (BaseException m), st'))"

subsection \<open>\<^verbatim>\<open>summarize_with_gemini\<close>\<close>

text \<open>The fixed instruction the prompt starts with (line 63).\<close>

definition instruction :: ustr where
  "instruction = lit ''Summarize this medical report simply:'' @ newline @ newline"

text \<open>Lines 61-65: the body of the \<^verbatim>\<open>try\<close> block.\<close>

definition gemini_body :: "env \<Rightarrow> ustr \<Rightarrow> state \<Rightarrow> (exn + ustr) \<times> state" where
  "gemini_body E text st =
     (case GenerativeModel E of
        Some e \<Rightarrow> (Inl e, call NewModel st)
      | None \<Rightarrow>
         (let prompt = instruction @ take 4000 text;
              st' = call (GenerateContent prompt) (call NewModel st)
          in case generate_content E prompt of
               Inl e \<Rightarrow> (Inl e, st')
             | Inr (HasText t) \<Rightarrow> (Inr (py_strip t), st')
             | Inr NoText \<Rightarrow> (Inr (lit ''[No summary]''), st')
             | Inr (TextRaises e) \<Rightarrow> (Inl e, st')))"

text \<open>Lines 60-68: the \<^verbatim>\<open>try\<close> statement.\<close>

definition gemini_try :: "env \<Rightarrow> ustr \<Rightarrow> state \<Rightarrow> (exn + ustr) \<times> state" where
  "gemini_try E text st =
     (case gemini_body E text st of
        (Inr summary, st') \<Rightarrow> (Inr summary, st')
      | (Inl (Exception m), st') \<Rightarrow> (Inr (lit ''[Gemini failed: '' @ m @ lit '']''), st')
      | (Inl (BaseException m), st') \<Rightarrow> (Inl (BaseException m), st'))"

text \<open>Lines 57-68.\<close>

definition summarize_with_gemini :: "env \<Rightarrow> ustr \<Rightarrow> state \<Rightarrow> (exn + ustr) \<times> state" where
  "summarize_with_gemini E text st =
     (if py_strip text = [] then (Inr (lit ''[No content to summarize]''), st)
      else gemini_try E text st)"

subsection \<open>The request handler \<^verbatim>\<open>parse\<close>\<close>

datatype json = JStr ustr | JInt int | JDict "(ustr \<times> json) list"

record response =
  body :: json
  status :: nat

record upload =
  filename :: ustr
  data :: bytes

text \<open>
  \<open>form_file_path\<close>: the value of \<^verbatim>\<open>request.form["file_path"]\<close> when the key is there.
  \<open>files\<close>: \<^verbatim>\<open>request.files.getlist("files")\<close> when the key \<^verbatim>\<open>"files"\<close> is there.
\<close>

record request =
  form_file_path :: "ustr option"
  files :: "upload list option"

definition UPLOAD_FOLDER :: ustr where
  "UPLOAD_FOLDER = lit ''./uploads''"

text \<open>\<^verbatim>\<open>f.save(path)\<close>\<close>

definition save :: "env \<Rightarrow> upload \<Rightarrow> ustr \<Rightarrow> state \<Rightarrow> (exn + unit) \<times> state" where
  "save E f path st =
     (case save_error E path of
        Some e \<Rightarrow> (Inl e, call (Save path) st)
      | None \<Rightarrow> (Inr (), (call (Save path) st)\<lparr>fs := (fs st)(path \<mapsto> data f)\<rparr>))"

text \<open>\<^verbatim>\<open>os.remove(path)\<close>: \<^verbatim>\<open>FileNotFoundError\<close> when there is no such file.\<close>

definition os_remove :: "ustr \<Rightarrow> state \<Rightarrow> (exn + unit) \<times> state" where
  "os_remove path st =
     (case fs st path of
        None \<Rightarrow>
          (Inl (Exception (lit ''[Errno 2] No such file or directory: '' @ path)),
           call (Remove path) st)
      | Some _ \<Rightarrow> (Inr (), (call (Remove path) st)\<lparr>fs := (fs st)(path := None)\<rparr>))"

text \<open>
  Lines 97-107: the loop over the uploaded files, with the variables \<^verbatim>\<open>combined_text\<close>
  and \<^verbatim>\<open>diagnostics\<close>. A dict is an association list in insertion order; assigning to
  a key that is there replaces its value in place.
\<close>

definition section_text :: "ustr \<Rightarrow> ustr \<Rightarrow> ustr" where
  "section_text name text =
     newline @ lit ''=== '' @ name @ lit '' ==='' @ newline @ text @ newline"

definition length_entry :: "ustr \<Rightarrow> json" where
  "length_entry text = JDict [(lit ''length'', JInt (int (length text)))]"

fun upload_loop ::
  "env \<Rightarrow> upload list \<Rightarrow> ustr \<Rightarrow> (ustr \<times> json) list \<Rightarrow> state
     \<Rightarrow> (exn + ustr \<times> (ustr \<times> json) list) \<times> state" where
  "upload_loop E [] combined_text diagnostics st = (Inr (combined_text, diagnostics), st)"
| "upload_loop E (f # rest) combined_text diagnostics st =
     (let name = secure_filename E (filename f);
          path = path_join UPLOAD_FOLDER name
      in case save E f path st of
           (Inl e, st1) \<Rightarrow> (Inl e, st1)
         | (Inr _, st1) \<Rightarrow>
            (case extract_text E path st1 of
               (Inl e, st2) \<Rightarrow> (Inl e, st2)
             | (Inr text, st2) \<Rightarrow>
                (case os_remove path st2 of
                   (Inl e, st3) \<Rightarrow> (Inl e, st3)
                 | (Inr _, st3) \<Rightarrow>
                     upload_loop E rest (combined_text @ section_text name text)
                       (AList.update name (length_entry text) diagnostics) st3)))"

text \<open>Lines 93-116: upload mode.\<close>

definition upload_mode :: "env \<Rightarrow> upload list \<Rightarrow> state \<Rightarrow> (exn + response) \<times> state" where
  "upload_mode E fl st =
     (case upload_loop E fl [] [] st of
        (Inl e, st1) \<Rightarrow> (Inl e, st1)
      | (Inr (combined_text, diagnostics), st1) \<Rightarrow>
         (case summarize_with_gemini E combined_text st1 of
            (Inl e, st2) \<Rightarrow> (Inl e, st2)
          | (Inr summary, st2) \<Rightarrow>
              (Inr \<lparr>body = JDict [(lit ''message'', JStr (lit ''Parsed successfully'')),
                                  (lit ''diagnostics'', JDict diagnostics),
                                  (lit ''summary'', JStr summary)],
                    status = 200\<rparr>, st2)))"

text \<open>Lines 80-87: path mode.\<close>

definition path_mode :: "env \<Rightarrow> ustr \<Rightarrow> state \<Rightarrow> (exn + response) \<times> state" where
  "path_mode E file_path st =
     (if fs st file_path = None
      then (Inr \<lparr>body = JDict [(lit ''error'', JStr (lit ''File not found: '' @ file_path))],
                 status = 400\<rparr>, st)
      else (case extract_text E file_path st of
              (Inl e, st1) \<Rightarrow> (Inl e, st1)
            | (Inr text, st1) \<Rightarrow>
               (case summarize_with_gemini E text st1 of
                  (Inl e, st2) \<Rightarrow> (Inl e, st2)
                | (Inr summary, st2) \<Rightarrow>
                    (Inr \<lparr>body = JDict [(lit ''message'', JStr (lit ''Parsed (from path)'')),
                                        (lit ''summary'', JStr summary)],
                          status = 200\<rparr>, st2))))"

text \<open>Lines 75-116. The result is the response, or the exception that leaves the handler.\<close>

definition parse :: "env \<Rightarrow> request \<Rightarrow> state \<Rightarrow> (exn + response) \<times> state" where
  "parse E req st =
     (case form_file_path req of
        Some file_path \<Rightarrow> path_mode E file_path st
      | None \<Rightarrow>
         (case files req of
            None \<Rightarrow>
              (Inr \<lparr>body = JDict [(lit ''error'', JStr (lit ''No files or file_path provided''))],
                    status = 400\<rparr>, st)
          | Some fl \<Rightarrow> upload_mode E fl st))"

subsection \<open>Notions used in the statements\<close>

text \<open>Lines 98-99: the sanitised name of an upload and the path it is saved to.\<close>

definition upload_name :: "env \<Rightarrow> upload \<Rightarrow> ustr" where
  "upload_name E f = secure_filename E (filename f)"

definition upload_path :: "env \<Rightarrow> upload \<Rightarrow> ustr" where
  "upload_path E f = path_join UPLOAD_FOLDER (upload_name E f)"

text \<open>
  The text \<^verbatim>\<open>extract_text\<close> returns for an upload once it is saved at its path (the empty
  string stands in when \<^verbatim>\<open>extract_text\<close> raises).
\<close>

definition saved_text :: "env \<Rightarrow> state \<Rightarrow> upload \<Rightarrow> ustr" where
  "saved_text E st f =
     (case fst (extract_text E (upload_path E f)
                  (st\<lparr>fs := (fs st)(upload_path E f \<mapsto> data f)\<rparr>)) of
        Inr t \<Rightarrow> t
      | Inl e \<Rightarrow> [])"

text \<open>The prompts sent to the remote service, among a list of calls.\<close>

fun requests :: "event list \<Rightarrow> ustr list" where
  "requests [] = []"
| "requests (GenerateContent prompt # es) = prompt # requests es"
| "requests (e # es) = requests es"

text \<open>The calls made between two states.\<close>

definition new_calls :: "state \<Rightarrow> state \<Rightarrow> event list" where
  "new_calls st st' = drop (length (calls st)) (calls st')"

subsection \<open>Example environments\<close>

text \<open>
  A process that has just started, with an empty upload directory, and an environment in
  which every call succeeds: the sanitiser keeps the name, OCR finds no line, the document
  reader returns one page holding the file's bytes, and the remote service answers.
\<close>

definition st_init :: state where
  "st_init = \<lparr>fs = Map.empty, ocr_reader = False, calls = []\<rparr>"

definition env_ok :: env where
  "env_ok =
     \<lparr>secure_filename = (\<lambda>name. name),
      unicode_lower = (\<lambda>s. s),
      Reader = None,
      readtext = (\<lambda>path content. Inr []),
      fitz_pages = (\<lambda>path content.
         case content of None \<Rightarrow> Inl (Exception (lit ''no such file''))
                       | Some d \<Rightarrow> Inr [lit d]),
      GenerativeModel = None,
      generate_content = (\<lambda>prompt. Inr (HasText (lit ''Summary''))),
      save_error = (\<lambda>path. None)\<rparr>"

text \<open>OCR and the remote service fail with exceptions derived from \<^verbatim>\<open>Exception\<close>.\<close>

definition env_fail :: env where
  "env_fail =
     env_ok\<lparr>readtext := (\<lambda>path content. Inl (Exception (lit ''bad image''))),
            generate_content := (\<lambda>prompt. Inl (Exception (lit ''quota'')))\<rparr>"

text \<open>
  OCR is interrupted by \<^verbatim>\<open>SystemExit(1)\<close> (what a worker's abort handler raises inside
  the running request), which does not derive from \<^verbatim>\<open>Exception\<close>.
\<close>

definition env_exit :: env where
  "env_exit = env_ok\<lparr>readtext := (\<lambda>path content. Inl (BaseException (lit ''1'')))\<rparr>"

definition scan_png :: upload where
  "scan_png = \<lparr>filename = lit ''scan.png'', data = ''PNG''\<rparr>"

definition report_pdf :: upload where
  "report_pdf = \<lparr>filename = lit ''report.pdf'', data = ''Hello''\<rparr>"

definition report_pdf2 :: upload where
  "report_pdf2 = \<lparr>filename = lit ''report.pdf'', data = ''Hi''\<rparr>"

definition empty_pdf :: upload where
  "empty_pdf = \<lparr>filename = lit ''empty.pdf'', data = []\<rparr>"

section \<open>Properties\<close>

subsection \<open>Strings\<close>

lemma length_lit: "length (lit s) = length s"
  by (simp add: lit_def)

lemma dropWhile_all_iff: "(\<forall>x\<in>set (dropWhile P s). P x) \<longleftrightarrow> (\<forall>x\<in>set s. P x)"
proof
  assume a: "\<forall>x\<in>set (dropWhile P s). P x"
  have "dropWhile P s = []"
  proof (rule ccontr)
    assume n: "dropWhile P s \<noteq> []"
    then have "\<not> P (hd (dropWhile P s))" by (rule hd_dropWhile)
    moreover have "hd (dropWhile P s) \<in> set (dropWhile P s)" using n by simp
    ultimately show False using a by blast
  qed
  then show "\<forall>x\<in>set s. P x" by (simp add: dropWhile_eq_Nil_conv)
next
  assume "\<forall>x\<in>set s. P x"
  then show "\<forall>x\<in>set (dropWhile P s). P x" by (auto dest: set_dropWhileD)
qed

lemma strip_Nil_iff: "py_strip s = [] \<longleftrightarrow> (\<forall>c\<in>set s. py_isspace c)"
  by (simp add: py_strip_def dropWhile_eq_Nil_conv dropWhile_all_iff)

subsection \<open>What \<^verbatim>\<open>extract_text\<close> depends on and changes\<close>

lemma fs_call [simp]: "fs (call e st) = fs st"
  and ocr_reader_call [simp]: "ocr_reader (call e st) = ocr_reader st"
  and calls_call [simp]: "calls (call e st) = calls st @ [e]"
  by (simp_all add: call_def)

lemma ocr_text_fst:
  "fs st p = fs st' p \<Longrightarrow> ocr_reader st = ocr_reader st' \<or> Reader E = None
   \<Longrightarrow> fst (ocr_text E p st) = fst (ocr_text E p st')"
  by (auto simp: ocr_text_def split: option.splits sum.splits)

lemma pdf_text_fst:
  "fs st p = fs st' p \<Longrightarrow> fst (pdf_text E p st) = fst (pdf_text E p st')"
  by (auto simp: pdf_text_def split: option.splits sum.splits)

lemma extract_body_fst:
  "fs st p = fs st' p \<Longrightarrow> ocr_reader st = ocr_reader st' \<or> Reader E = None
   \<Longrightarrow> fst (extract_body E p st) = fst (extract_body E p st')"
  using ocr_text_fst[of st p st' E] pdf_text_fst[of st p st' E]
  by (simp add: extract_body_def Let_def)

lemma extract_text_fst:
  assumes "fs st p = fs st' p" "ocr_reader st = ocr_reader st' \<or> Reader E = None"
  shows "fst (extract_text E p st) = fst (extract_text E p st')"
proof -
  have "fst (extract_body E p st) = fst (extract_body E p st')"
    using assms by (rule extract_body_fst)
  then show ?thesis
    by (cases "extract_body E p st"; cases "extract_body E p st'")
       (auto simp: extract_text_def split: sum.splits exn.splits)
qed

lemma ocr_text_snd:
  "fs (snd (ocr_text E p st)) = fs st"
  "ocr_reader (snd (ocr_text E p st)) = ocr_reader st \<or> Reader E = None"
  by (auto simp: ocr_text_def split: option.splits sum.splits)

lemma pdf_text_snd:
  "fs (snd (pdf_text E p st)) = fs st"
  "ocr_reader (snd (pdf_text E p st)) = ocr_reader st"
  by (auto simp: pdf_text_def split: option.splits sum.splits)

lemma extract_body_snd:
  "fs (snd (extract_body E p st)) = fs st"
  "ocr_reader (snd (extract_body E p st)) = ocr_reader st \<or> Reader E = None"
  using ocr_text_snd[of E p st] pdf_text_snd[of E p st]
  by (auto simp: extract_body_def Let_def)

lemma snd_extract_text: "snd (extract_text E p st) = snd (extract_body E p st)"
  by (cases "extract_body E p st") (auto simp: extract_text_def split: sum.splits exn.splits)

lemma extract_text_snd:
  "fs (snd (extract_text E p st)) = fs st"
  "ocr_reader (snd (extract_text E p st)) = ocr_reader st \<or> Reader E = None"
  using extract_body_snd[of E p st] by (simp_all add: snd_extract_text)


subsection \<open>The loop over the uploads\<close>

lemma saved_text_cong:
  "ocr_reader st = ocr_reader st' \<or> Reader E = None \<Longrightarrow> saved_text E st f = saved_text E st' f"
  unfolding saved_text_def
  by (subst extract_text_fst[where st' = "st'\<lparr>fs := (fs st')(upload_path E f \<mapsto> data f)\<rparr>"]) simp_all

lemma save_Inr:
  "save E f p st = (Inr u, st1) \<Longrightarrow>
     fs st1 = (fs st)(p \<mapsto> data f) \<and> ocr_reader st1 = ocr_reader st"
  by (auto simp: save_def split: option.splits)

lemma os_remove_Inr:
  "os_remove p st = (Inr u, st1) \<Longrightarrow>
     fs st1 = (fs st)(p := None) \<and> ocr_reader st1 = ocr_reader st"
  by (auto simp: os_remove_def split: option.splits)

text \<open>One round of the loop.\<close>

lemma upload_loop_Cons_Inr:
  assumes "upload_loop E (f # rest) c d st = (Inr r, st')"
  obtains st3 where
    "upload_loop E rest (c @ section_text (upload_name E f) (saved_text E st f))
       (AList.update (upload_name E f) (length_entry (saved_text E st f)) d) st3 = (Inr r, st')"
    "fs st3 = (fs st)(upload_path E f := None)"
    "ocr_reader st3 = ocr_reader st \<or> Reader E = None"
    "fst (extract_text E (upload_path E f) (st\<lparr>fs := (fs st)(upload_path E f \<mapsto> data f)\<rparr>))
       = Inr (saved_text E st f)"
proof -
  let ?p = "upload_path E f"
  have p: "path_join UPLOAD_FOLDER (secure_filename E (filename f)) = ?p"
    by (simp add: upload_path_def upload_name_def)
  obtain r1 st1 where s: "save E f ?p st = (r1, st1)" by (cases "save E f ?p st")
  obtain r2 st2 where x: "extract_text E ?p st1 = (r2, st2)" by (cases "extract_text E ?p st1")
  obtain r3 st3 where m: "os_remove ?p st2 = (r3, st3)" by (cases "os_remove ?p st2")
  from assms s obtain u where r1: "r1 = Inr u"
    by (cases r1) (simp_all add: p Let_def)
  from assms s x r1 obtain t where r2: "r2 = Inr t"
    by (cases r2) (simp_all add: p Let_def)
  from assms s x m r1 r2 obtain v where r3: "r3 = Inr v"
    by (cases r3) (simp_all add: p Let_def)
  have loop: "upload_loop E rest (c @ section_text (upload_name E f) t)
       (AList.update (upload_name E f) (length_entry t) d) st3 = (Inr r, st')"
    using assms s x m r1 r2 r3 by (simp add: p Let_def upload_name_def)
  have st1: "fs st1 = (fs st)(?p \<mapsto> data f)" "ocr_reader st1 = ocr_reader st"
    using save_Inr[OF s[unfolded r1]] by simp_all
  have st2: "fs st2 = fs st1" "ocr_reader st2 = ocr_reader st1 \<or> Reader E = None"
    using extract_text_snd[of E ?p st1] x by simp_all
  have st3: "fs st3 = (fs st2)(?p := None)" "ocr_reader st3 = ocr_reader st2"
    using os_remove_Inr[OF m[unfolded r3]] by simp_all
  have e: "fst (extract_text E ?p (st\<lparr>fs := (fs st)(?p \<mapsto> data f)\<rparr>)) = fst (extract_text E ?p st1)"
    by (rule extract_text_fst) (simp_all add: st1)
  then have t: "saved_text E st f = t"
    by (simp add: saved_text_def x r2)
  show thesis
  proof (rule that[of st3])
    show "upload_loop E rest (c @ section_text (upload_name E f) (saved_text E st f))
       (AList.update (upload_name E f) (length_entry (saved_text E st f)) d) st3 = (Inr r, st')"
      using loop t by simp
    show "fs st3 = (fs st)(?p := None)" using st1 st2 st3 by simp
    show "ocr_reader st3 = ocr_reader st \<or> Reader E = None" using st1 st2 st3 by auto
    show "fst (extract_text E ?p (st\<lparr>fs := (fs st)(?p \<mapsto> data f)\<rparr>)) = Inr (saved_text E st f)"
      using e t x r2 by simp
  qed
qed

lemma upload_loop_Inr:
  "upload_loop E fl c d st = (Inr (c', d'), st') \<Longrightarrow>
     c' = c @ concat (map (\<lambda>f. section_text (upload_name E f) (saved_text E st f)) fl) \<and>
     d' = fold (\<lambda>f. AList.update (upload_name E f) (length_entry (saved_text E st f))) fl d \<and>
     fs st' = (\<lambda>p. if p \<in> upload_path E ` set fl then None else fs st p)"
proof (induction fl arbitrary: c d st)
  case Nil
  then show ?case by auto
next
  case (Cons f rest)
  from Cons.prems obtain st3 where
    loop: "upload_loop E rest (c @ section_text (upload_name E f) (saved_text E st f))
       (AList.update (upload_name E f) (length_entry (saved_text E st f)) d) st3 = (Inr (c', d'), st')"
    and fs3: "fs st3 = (fs st)(upload_path E f := None)"
    and rd3: "ocr_reader st3 = ocr_reader st \<or> Reader E = None"
    by (rule upload_loop_Cons_Inr)
  have same: "saved_text E st3 g = saved_text E st g" for g
    by (rule saved_text_cong) (use rd3 in auto)
  from Cons.IH[OF loop] show ?case
    by (auto simp: same fs3)
qed

text \<open>Each text in the statements below is one that \<^verbatim>\<open>extract_text\<close> returned.\<close>

lemma upload_loop_texts:
  "upload_loop E fl c d st = (Inr r, st') \<Longrightarrow> f \<in> set fl \<Longrightarrow>
     fst (extract_text E (upload_path E f) (st\<lparr>fs := (fs st)(upload_path E f \<mapsto> data f)\<rparr>))
       = Inr (saved_text E st f)"
proof (induction fl arbitrary: c d st)
  case Nil
  then show ?case by simp
next
  case (Cons g rest)
  from Cons.prems(1) obtain st3 where
    loop: "upload_loop E rest (c @ section_text (upload_name E g) (saved_text E st g))
       (AList.update (upload_name E g) (length_entry (saved_text E st g)) d) st3 = (Inr r, st')"
    and rd3: "ocr_reader st3 = ocr_reader st \<or> Reader E = None"
    and here: "fst (extract_text E (upload_path E g)
                 (st\<lparr>fs := (fs st)(upload_path E g \<mapsto> data g)\<rparr>)) = Inr (saved_text E st g)"
    by (rule upload_loop_Cons_Inr)
  show ?case
  proof (cases "f = g")
    case True
    show ?thesis unfolding True by (rule here)
  next
    case False
    with Cons.prems(2) have "f \<in> set rest" by simp
    from Cons.IH[OF loop this]
    have "fst (extract_text E (upload_path E f)
                 (st3\<lparr>fs := (fs st3)(upload_path E f \<mapsto> data f)\<rparr>)) = Inr (saved_text E st3 f)" .
    moreover have "saved_text E st3 f = saved_text E st f"
      by (rule saved_text_cong) (use rd3 in auto)
    moreover have "fst (extract_text E (upload_path E f)
                 (st3\<lparr>fs := (fs st3)(upload_path E f \<mapsto> data f)\<rparr>))
        = fst (extract_text E (upload_path E f)
                 (st\<lparr>fs := (fs st)(upload_path E f \<mapsto> data f)\<rparr>))"
      by (rule extract_text_fst) (use rd3 in auto)
    ultimately show ?thesis by (simp only:)
  qed
qed

subsection \<open>The summariser\<close>

lemma py_strip_lit_no_text: "py_strip (lit ''[No text]'') = lit ''[No text]''"
  by (simp add: py_strip_def lit_def py_isspace_def)

lemma snd_gemini_try: "snd (gemini_try E t st) = snd (gemini_body E t st)"
  by (cases "gemini_body E t st") (auto simp: gemini_try_def split: sum.splits exn.splits)

lemma calls_gemini_body:
  "calls (snd (gemini_body E t st)) =
     calls st @ (if GenerativeModel E \<noteq> None then [NewModel]
                 else [NewModel, GenerateContent (instruction @ take 4000 t)])"
  by (auto simp: gemini_body_def Let_def split: option.splits sum.splits gen_response.splits)

lemma calls_summarize:
  "calls (snd (summarize_with_gemini E t st)) =
     calls st @ (if py_strip t = [] then []
                 else if GenerativeModel E \<noteq> None then [NewModel]
                 else [NewModel, GenerateContent (instruction @ take 4000 t)])"
  by (simp add: summarize_with_gemini_def snd_gemini_try calls_gemini_body)


subsection \<open>The diagnostics dict\<close>

lemma fold_update_snoc:
  "fold (\<lambda>f. AList.update (k f) (v f)) (fl @ [g]) d
     = AList.update (k g) (v g) (fold (\<lambda>f. AList.update (k f) (v f)) fl d)"
  by simp

lemma map_of_fold_update:
  "map_of (fold (\<lambda>f. AList.update (k f) (v f)) fl d) x =
     (if x \<in> k ` set fl then Some (v (last (filter (\<lambda>g. k g = x) fl))) else map_of d x)"
proof (induction fl rule: rev_induct)
  case Nil
  then show ?case by simp
next
  case (snoc g fl)
  show ?case
    unfolding fold_update_snoc AList.update_conv'
    using snoc.IH by (auto simp: image_iff)
qed

lemma keys_fold_update:
  "fst ` set (fold (\<lambda>f. AList.update (k f) (v f)) fl d) = fst ` set d \<union> k ` set fl"
  by (induction fl arbitrary: d) (auto simp: AList.dom_update)

lemma distinct_fold_update:
  "distinct (map fst d) \<Longrightarrow> distinct (map fst (fold (\<lambda>f. AList.update (k f) (v f)) fl d))"
  by (induction fl arbitrary: d) (auto simp: AList.distinct_update)

lemma length_fold_update_Nil:
  "length (fold (\<lambda>f. AList.update (k f) (v f)) fl []) = card (k ` set fl)"
proof -
  let ?d = "fold (\<lambda>f. AList.update (k f) (v f)) fl []"
  have "distinct (map fst ?d)" by (rule distinct_fold_update) simp
  from distinct_card[OF this] have "card (fst ` set ?d) = length ?d" by simp
  moreover have "fst ` set ?d = k ` set fl" using keys_fold_update[of k v fl "[]"] by simp
  ultimately show ?thesis by simp
qed

lemma card_image_less_length:
  assumes "\<not> distinct (map k fl)"
  shows "card (k ` set fl) < length fl"
proof -
  have "card (set (map k fl)) \<le> length (map k fl)" by (rule card_length)
  moreover have "card (set (map k fl)) \<noteq> length (map k fl)"
    using assms card_distinct by blast
  ultimately show ?thesis by simp
qed

subsection \<open>What the loop returns\<close>


lemma upload_loop_diagnostics:
  assumes "upload_loop E fl [] [] st = (Inr (combined_text, diagnostics), st')"
  shows "diagnostics = fold (\<lambda>f. AList.update (upload_name E f) (length_entry (saved_text E st f))) fl []"
  using upload_loop_Inr[OF assms] by simp

lemma upload_loop_combined:
  assumes "upload_loop E fl [] [] st = (Inr (combined_text, diagnostics), st')"
  shows "combined_text = concat (map (\<lambda>f. section_text (upload_name E f) (saved_text E st f)) fl)"
  using upload_loop_Inr[OF assms] by simp

lemma upload_loop_last_wins:
  assumes "upload_loop E fl [] [] st = (Inr (combined_text, diagnostics), st')" and "f \<in> set fl"
  shows "map_of diagnostics (upload_name E f) =
           Some (length_entry
             (saved_text E st (last (filter (\<lambda>g. upload_name E g = upload_name E f) fl))))"
  unfolding upload_loop_diagnostics[OF assms(1)] map_of_fold_update
  using assms(2) by simp

subsection \<open>The examples, evaluated\<close>

lemmas eval_defs =
  parse_def upload_mode_def path_mode_def save_def os_remove_def extract_text_def
  extract_body_def ocr_text_def pdf_text_def summarize_with_gemini_def gemini_try_def
  gemini_body_def call_def path_join_def UPLOAD_FOLDER_def section_text_def length_entry_def
  splitext_def rfind_def str_lower_def image_exts_def ascii_lower_def py_strip_def
  py_isspace_def instruction_def newline_def lit_def Let_def
  st_init_def env_ok_def env_fail_def env_exit_def scan_png_def report_pdf_def
  report_pdf2_def empty_pdf_def upload_name_def upload_path_def

lemma scan_png_is_image:
  "str_lower ul (snd (splitext (lit ''./uploads/scan.png''))) \<in> set image_exts"
  by (simp add: splitext_def rfind_def lit_def str_lower_def image_exts_def ascii_lower_def)

lemma two_reports:
  "fst (upload_loop env_ok [report_pdf, report_pdf2] [] [] st_init) =
     Inr (newline @ lit ''=== report.pdf ==='' @ newline @ lit ''Hello'' @ newline @
          newline @ lit ''=== report.pdf ==='' @ newline @ lit ''Hi'' @ newline,
          [(lit ''report.pdf'', JDict [(lit ''length'', JInt 2)])])"
  by (simp add: eval_defs)

lemma saved_text_reports:
  "saved_text env_ok st_init report_pdf = lit ''Hello''"
  "saved_text env_ok st_init report_pdf2 = lit ''Hi''"
  by (simp_all add: saved_text_def eval_defs)

lemma one_empty:
  "fst (upload_loop env_ok [empty_pdf] [] [] st_init) =
     Inr (newline @ lit ''=== empty.pdf ==='' @ newline @ newline,
          [(lit ''empty.pdf'', JDict [(lit ''length'', JInt 0)])])"
  by (simp add: eval_defs)

section \<open>The claims\<close>




text \<open>
  C2. For every text longer than 4000 characters, the only prompt
  \<^verbatim>\<open>summarize_with_gemini\<close> sends is the instruction followed by the first 4000 characters
  of the text (and it sends none when the text is blank or the client cannot be built).
\<close>

theorem prompt_has_first_4000:
  assumes "4000 < length text"
  shows "requests (new_calls st (snd (summarize_with_gemini E text st))) =
           (if py_strip text = [] \<or> GenerativeModel E \<noteq> None then []
            else [instruction @ take 4000 text]) \<and>
         length (take 4000 text) = 4000"
  using assms by (simp add: new_calls_def calls_summarize)

theorem prompt_has_first_4000_witness:
  "requests (new_calls st_init (snd (summarize_with_gemini env_ok (replicate 4001 97) st_init)))
     = [instruction @ replicate 4000 97]"
proof -
  have a: "4000 < length (replicate 4001 (97::nat))" by simp
  have b: "py_strip (replicate 4001 97) \<noteq> []"
    by (simp add: strip_Nil_iff py_isspace_def)
  have c: "GenerativeModel env_ok = None" by (simp add: env_ok_def)
  show ?thesis
    using prompt_has_first_4000[OF a, of st_init env_ok] b c by simp
qed

text \<open>
  C3. For every text that is empty or has only whitespace, \<^verbatim>\<open>summarize_with_gemini\<close>
  returns the string \<^verbatim>\<open>[No content to summarize]\<close> and leaves the state as it was: it
  makes no call to the remote service (nor any other call).
\<close>

theorem blank_text_short_circuit:
  assumes "py_strip text = []"
  shows "summarize_with_gemini E text st = (Inr (lit ''[No content to summarize]''), st)"
  using assms by (simp add: summarize_with_gemini_def)

theorem blank_text_short_circuit_witness:
  "summarize_with_gemini env_ok [] st_init = (Inr (lit ''[No content to summarize]''), st_init) \<and>
   summarize_with_gemini env_ok (lit ''   '') st_init
     = (Inr (lit ''[No content to summarize]''), st_init)"
proof -
  have a: "py_strip [] = []" by (simp add: py_strip_def)
  have b: "py_strip (lit ''   '') = []" by (simp add: py_strip_def lit_def py_isspace_def)
  show ?thesis
    using blank_text_short_circuit[OF a, of env_ok st_init]
          blank_text_short_circuit[OF b, of env_ok st_init] by simp
qed

text \<open>
  C4. For every path whose extension, in lower case, is one of \<^verbatim>\<open>.jpg .jpeg .png .bmp .tiff\<close>:
  when the OCR reader is there (or its construction succeeds) and recognition returns no
  line, \<^verbatim>\<open>extract_text\<close> returns \<^verbatim>\<open>[No text]\<close>, which is not the empty string.
\<close>

theorem image_without_lines_no_text:
  assumes "str_lower (unicode_lower E) (snd (splitext file_path)) \<in> set image_exts"
    and "ocr_reader st \<or> Reader E = None"
    and "readtext E file_path (fs st file_path) = Inr []"
  shows "fst (extract_text E file_path st) = Inr (lit ''[No text]'') \<and>
         fst (extract_text E file_path st) \<noteq> Inr []"
proof -
  have "fst (extract_body E file_path st) = Inr (lit ''[No text]'')"
    using assms by (auto simp: extract_body_def ocr_text_def split: option.splits)
  then have "fst (extract_text E file_path st) = Inr (py_strip (lit ''[No text]''))"
    by (cases "extract_body E file_path st") (simp add: extract_text_def)
  moreover have "lit ''[No text]'' \<noteq> []"
    by (simp add: lit_def)
  ultimately show ?thesis
    by (simp add: py_strip_lit_no_text)
qed

theorem image_without_lines_no_text_witness:
  "fst (extract_text env_ok (lit ''./uploads/scan.PNG'') st_init) = Inr (lit ''[No text]'') \<and>
   fst (extract_text env_ok (lit ''./uploads/scan.PNG'') st_init) \<noteq> Inr []"
proof -
  have a: "str_lower (unicode_lower env_ok) (snd (splitext (lit ''./uploads/scan.PNG'')))
             \<in> set image_exts"
    by (simp add: splitext_def rfind_def lit_def str_lower_def image_exts_def ascii_lower_def)
  have b: "ocr_reader st_init \<or> Reader env_ok = None"
    by (simp add: env_ok_def)
  have c: "readtext env_ok (lit ''./uploads/scan.PNG'') (fs st_init (lit ''./uploads/scan.PNG''))
             = Inr []"
    by (simp add: env_ok_def)
  show ?thesis
    using image_without_lines_no_text[OF a b c] .
qed

text \<open>
  C5, as amended. Neither function propagates an exception that derives from
  \<^verbatim>\<open>Exception\<close>: when the guarded block of \<^verbatim>\<open>extract_text\<close> raises one with message
  \<open>m\<close>, the function returns \<^verbatim>\<open>[Error extracting text: m]\<close>; when the guarded block of
  \<^verbatim>\<open>summarize_with_gemini\<close> raises one with message \<open>n\<close>, the function returns
  \<^verbatim>\<open>[Gemini failed: n]\<close>. An exception that does not derive from \<^verbatim>\<open>Exception\<close>
  passes through both.
\<close>

theorem exceptions_caught:
  "(fst (extract_body E file_path st) = Inl (Exception m) \<longrightarrow>
      fst (extract_text E file_path st) = Inr (lit ''[Error extracting text: '' @ m @ lit '']''))
   \<and> fst (extract_text E file_path st) \<noteq> Inl (Exception m')
   \<and> (py_strip text \<noteq> [] \<and> fst (gemini_body E text st) = Inl (Exception n) \<longrightarrow>
        fst (summarize_with_gemini E text st) = Inr (lit ''[Gemini failed: '' @ n @ lit '']''))
   \<and> fst (summarize_with_gemini E text st) \<noteq> Inl (Exception n')
   \<and> (fst (extract_body E file_path st) = Inl (BaseException m) \<longrightarrow>
        fst (extract_text E file_path st) = Inl (BaseException m))
   \<and> (py_strip text \<noteq> [] \<and> fst (gemini_body E text st) = Inl (BaseException n) \<longrightarrow>
        fst (summarize_with_gemini E text st) = Inl (BaseException n))"
proof -
  have 1: "fst (extract_text E file_path st)
             = Inr (lit ''[Error extracting text: '' @ m @ lit '']'')"
    if "fst (extract_body E file_path st) = Inl (Exception m)"
    using that by (cases "extract_body E file_path st") (simp add: extract_text_def)
  have 2: "fst (extract_text E file_path st) \<noteq> Inl (Exception m')"
    by (cases "extract_body E file_path st")
       (auto simp: extract_text_def split: sum.splits exn.splits)
  have 3: "fst (summarize_with_gemini E text st) = Inr (lit ''[Gemini failed: '' @ n @ lit '']'')"
    if "py_strip text \<noteq> []" "fst (gemini_body E text st) = Inl (Exception n)"
    using that
    by (cases "gemini_body E text st") (simp add: summarize_with_gemini_def gemini_try_def)
  have 4: "fst (summarize_with_gemini E text st) \<noteq> Inl (Exception n')"
    by (cases "gemini_body E text st")
       (auto simp: summarize_with_gemini_def gemini_try_def split: sum.splits exn.splits)
  have 5: "fst (extract_text E file_path st) = Inl (BaseException m)"
    if "fst (extract_body E file_path st) = Inl (BaseException m)"
    using that by (cases "extract_body E file_path st") (simp add: extract_text_def)
  have 6: "fst (summarize_with_gemini E text st) = Inl (BaseException n)"
    if "py_strip text \<noteq> []" "fst (gemini_body E text st) = Inl (BaseException n)"
    using that
    by (cases "gemini_body E text st") (simp add: summarize_with_gemini_def gemini_try_def)
  from 1 2 3 4 5 6 show ?thesis by blast
qed

theorem exceptions_caught_witness:
  "fst (extract_text env_fail (lit ''./uploads/scan.png'') st_init)
     = Inr (lit ''[Error extracting text: bad image]'') \<and>
   fst (summarize_with_gemini env_fail (lit ''Hello'') st_init)
     = Inr (lit ''[Gemini failed: quota]'')"
proof -
  have a: "fst (extract_body env_fail (lit ''./uploads/scan.png'') st_init)
             = Inl (Exception (lit ''bad image''))"
    by (simp add: extract_body_def scan_png_is_image ocr_text_def env_fail_def env_ok_def
          st_init_def)
  have b: "py_strip (lit ''Hello'') \<noteq> []"
    by (simp add: strip_Nil_iff py_isspace_def lit_def)
  have c: "fst (gemini_body env_fail (lit ''Hello'') st_init) = Inl (Exception (lit ''quota''))"
    by (simp add: gemini_body_def env_fail_def env_ok_def)
  have 1: "fst (extract_text env_fail (lit ''./uploads/scan.png'') st_init)
             = Inr (lit ''[Error extracting text: '' @ lit ''bad image'' @ lit '']'')"
    using exceptions_caught[of env_fail "lit ''./uploads/scan.png''" st_init "lit ''bad image''"
            "[]" "lit ''Hello''" "lit ''quota''" "[]"] a by blast
  have 2: "fst (summarize_with_gemini env_fail (lit ''Hello'') st_init)
             = Inr (lit ''[Gemini failed: '' @ lit ''quota'' @ lit '']'')"
    using exceptions_caught[of env_fail "lit ''./uploads/scan.png''" st_init "lit ''bad image''"
            "[]" "lit ''Hello''" "lit ''quota''" "[]"] b c by blast
  show ?thesis
    using 1 2 by (simp add: lit_def)
qed

text \<open>
  C5 as stated fails: an exception that does not derive from \<^verbatim>\<open>Exception\<close> (here
  \<^verbatim>\<open>SystemExit(1)\<close> during OCR) leaves \<^verbatim>\<open>extract_text\<close>.
\<close>

theorem exceptions_caught_counterexample:
  "fst (extract_text env_exit (lit ''./uploads/scan.png'') st_init)
     = Inl (BaseException (lit ''1''))"
proof -
  have "fst (extract_body env_exit (lit ''./uploads/scan.png'') st_init)
          = Inl (BaseException (lit ''1''))"
    by (simp add: extract_body_def scan_png_is_image ocr_text_def env_exit_def env_ok_def
          st_init_def)
  then show ?thesis
    by (cases "extract_body env_exit (lit ''./uploads/scan.png'') st_init")
       (simp add: extract_text_def)
qed

text \<open>
  C6, as amended. When the loop over the uploads completes, the combined buffer is the
  concatenation, in order, of one section \<^verbatim>\<open>"\\n=== <name> ===\\n<text>\\n"\<close> per file (with a
  leading newline), \<open>name\<close> the sanitised file name and \<open>text\<close> what
  \<^verbatim>\<open>extract_text\<close> returned for the file (third part); and the diagnostics entry under
  each sanitised name holds the length of the text of the last file with that sanitised name.
\<close>

theorem sections_and_lengths:
  assumes "upload_loop E fl [] [] st = (Inr (combined_text, diagnostics), st')"
  shows "combined_text =
           concat (map (\<lambda>f. newline @ lit ''=== '' @ secure_filename E (filename f) @ lit '' ===''
                              @ newline @ saved_text E st f @ newline) fl) \<and>
         (\<forall>f\<in>set fl. map_of diagnostics (secure_filename E (filename f)) =
            Some (JDict [(lit ''length'',
              JInt (int (length (saved_text E st
                (last (filter (\<lambda>g. secure_filename E (filename g) = secure_filename E (filename f))
                   fl))))))])) \<and>
         (\<forall>f\<in>set fl.
            fst (extract_text E (upload_path E f) (st\<lparr>fs := (fs st)(upload_path E f \<mapsto> data f)\<rparr>))
              = Inr (saved_text E st f))"
  using upload_loop_combined[OF assms] upload_loop_last_wins[OF assms] upload_loop_texts[OF assms]
  by (simp add: section_text_def upload_name_def length_entry_def)

theorem sections_and_lengths_witness:
  "fst (upload_loop env_ok [report_pdf, report_pdf2] [] [] st_init) =
     Inr (newline @ lit ''=== report.pdf ==='' @ newline @ lit ''Hello'' @ newline @
          newline @ lit ''=== report.pdf ==='' @ newline @ lit ''Hi'' @ newline,
          [(lit ''report.pdf'', JDict [(lit ''length'', JInt 2)])]) \<and>
   map_of [(lit ''report.pdf'', JDict [(lit ''length'', JInt 2)])]
       (secure_filename env_ok (filename report_pdf))
     = Some (JDict [(lit ''length'', JInt (int (length (saved_text env_ok st_init report_pdf2))))])"
proof -
  let ?c = "newline @ lit ''=== report.pdf ==='' @ newline @ lit ''Hello'' @ newline @
          newline @ lit ''=== report.pdf ==='' @ newline @ lit ''Hi'' @ newline"
  let ?d = "[(lit ''report.pdf'', JDict [(lit ''length'', JInt 2)])]"
  let ?l = "upload_loop env_ok [report_pdf, report_pdf2] [] [] st_init"
  have "?l = (Inr (?c, ?d), snd ?l)"
    using two_reports by (metis prod.collapse)
  from sections_and_lengths[OF this] two_reports show ?thesis
    by (simp add: env_ok_def report_pdf_def report_pdf2_def)
qed

text \<open>
  C6 as stated fails on two uploads named \<^verbatim>\<open>report.pdf\<close> with the texts \<^verbatim>\<open>Hello\<close> and
  \<^verbatim>\<open>Hi\<close>: the buffer is not the concatenation of sections that start with \<^verbatim>\<open>===\<close>,
  and the entry under \<^verbatim>\<open>report.pdf\<close> is 2, not the length of the first file's text.
\<close>

theorem sections_and_lengths_counterexample:
  "fst (upload_loop env_ok [report_pdf, report_pdf2] [] [] st_init) =
     Inr (newline @ lit ''=== report.pdf ==='' @ newline @ lit ''Hello'' @ newline @
          newline @ lit ''=== report.pdf ==='' @ newline @ lit ''Hi'' @ newline,
          [(lit ''report.pdf'', JDict [(lit ''length'', JInt 2)])]) \<and>
   newline @ lit ''=== report.pdf ==='' @ newline @ lit ''Hello'' @ newline @
          newline @ lit ''=== report.pdf ==='' @ newline @ lit ''Hi'' @ newline
     \<noteq> lit ''=== report.pdf ==='' @ newline @ lit ''Hello'' @ newline @
          lit ''=== report.pdf ==='' @ newline @ lit ''Hi'' @ newline \<and>
   saved_text env_ok st_init report_pdf = lit ''Hello'' \<and>
   int (length (lit ''Hello'')) \<noteq> 2"
  using two_reports saved_text_reports(1) by (simp add: lit_def newline_def)

text \<open>
  C7. For every request with a \<^verbatim>\<open>file_path\<close> field whose path does not exist, the handler
  returns status 400 and the body \<^verbatim>\<open>{"error": "File not found: <file_path>"}\<close>, and the
  state is as it was: nothing was extracted or summarised.
\<close>

theorem missing_path_400:
  assumes "form_file_path req = Some file_path" and "fs st file_path = None"
  shows "parse E req st =
           (Inr \<lparr>body = JDict [(lit ''error'', JStr (lit ''File not found: '' @ file_path))],
                 status = 400\<rparr>, st)"
  using assms by (simp add: parse_def path_mode_def)

theorem missing_path_400_witness:
  "parse env_ok \<lparr>form_file_path = Some (lit ''/tmp/x.pdf''), files = None\<rparr> st_init =
     (Inr \<lparr>body = JDict [(lit ''error'', JStr (lit ''File not found: /tmp/x.pdf''))],
           status = 400\<rparr>, st_init)"
  using missing_path_400[of "\<lparr>form_file_path = Some (lit ''/tmp/x.pdf''), files = None\<rparr>"
          "lit ''/tmp/x.pdf''" st_init env_ok]
  by (simp add: st_init_def lit_def)

text \<open>
  C8. For every request with neither a \<^verbatim>\<open>file_path\<close> field nor a \<^verbatim>\<open>files\<close>
  attachment, the handler returns status 400 and the body
  \<^verbatim>\<open>{"error": "No files or file_path provided"}\<close>.
\<close>

theorem no_input_400:
  assumes "form_file_path req = None" and "files req = None"
  shows "parse E req st =
           (Inr \<lparr>body = JDict [(lit ''error'', JStr (lit ''No files or file_path provided''))],
                 status = 400\<rparr>, st)"
  using assms by (simp add: parse_def)

theorem no_input_400_witness:
  "parse env_ok \<lparr>form_file_path = None, files = None\<rparr> st_init =
     (Inr \<lparr>body = JDict [(lit ''error'', JStr (lit ''No files or file_path provided''))],
           status = 400\<rparr>, st_init)"
  using no_input_400[of "\<lparr>form_file_path = None, files = None\<rparr>" env_ok st_init]
  by simp

text \<open>
  C9. In upload mode with at least one file, the combined text handed to
  \<^verbatim>\<open>summarize_with_gemini\<close> is not blank (it holds the \<^verbatim>\<open>=\<close> of a section label), so
  the summariser does not take its \<^verbatim>\<open>[No content to summarize]\<close> branch: it runs its
  \<^verbatim>\<open>try\<close> statement, whatever the files' texts are.
\<close>

theorem labels_reach_summarizer:
  assumes "upload_loop E fl [] [] st = (Inr (combined_text, diagnostics), st')" and "fl \<noteq> []"
  shows "py_strip combined_text \<noteq> [] \<and>
         summarize_with_gemini E combined_text st' = gemini_try E combined_text st'"
proof -
  from assms(2) obtain f rest where fl: "fl = f # rest" by (cases fl) auto
  have "61 \<in> set (section_text (upload_name E f) (saved_text E st f))"
    by (simp add: section_text_def lit_def)
  then have "61 \<in> set combined_text"
    unfolding upload_loop_combined[OF assms(1)] fl by simp
  moreover have "\<not> py_isspace 61" by (simp add: py_isspace_def)
  ultimately have "py_strip combined_text \<noteq> []"
    unfolding strip_Nil_iff by blast
  then show ?thesis by (simp add: summarize_with_gemini_def)
qed

theorem labels_reach_summarizer_witness:
  "fst (upload_loop env_ok [empty_pdf] [] [] st_init) =
     Inr (newline @ lit ''=== empty.pdf ==='' @ newline @ newline,
          [(lit ''empty.pdf'', JDict [(lit ''length'', JInt 0)])]) \<and>
   py_strip (newline @ lit ''=== empty.pdf ==='' @ newline @ newline) \<noteq> [] \<and>
   summarize_with_gemini env_ok (newline @ lit ''=== empty.pdf ==='' @ newline @ newline)
      (snd (upload_loop env_ok [empty_pdf] [] [] st_init))
    = gemini_try env_ok (newline @ lit ''=== empty.pdf ==='' @ newline @ newline)
      (snd (upload_loop env_ok [empty_pdf] [] [] st_init))"
proof -
  let ?l = "upload_loop env_ok [empty_pdf] [] [] st_init"
  have "?l = (Inr (newline @ lit ''=== empty.pdf ==='' @ newline @ newline,
          [(lit ''empty.pdf'', JDict [(lit ''length'', JInt 0)])]), snd ?l)"
    using one_empty by (metis prod.collapse)
  from labels_reach_summarizer[OF this] one_empty show ?thesis by simp
qed

text \<open>
  C10. When the loop over the uploads completes, the diagnostics have exactly one entry per
  sanitised name, holding the length of the text of the last file with that name, while
  the combined buffer has one section per file; so there are at most as many entries as
  files, and fewer when two files have the same sanitised name.
\<close>

theorem one_entry_per_name:
  assumes "upload_loop E fl [] [] st = (Inr (combined_text, diagnostics), st')"
  shows "distinct (map fst diagnostics) \<and>
         set (map fst diagnostics) = set (map (upload_name E) fl) \<and>
         (\<forall>f\<in>set fl. map_of diagnostics (upload_name E f) =
            Some (length_entry
              (saved_text E st (last (filter (\<lambda>g. upload_name E g = upload_name E f) fl))))) \<and>
         combined_text =
           concat (map (\<lambda>f. section_text (upload_name E f) (saved_text E st f)) fl) \<and>
         length diagnostics \<le> length fl \<and>
         (\<not> distinct (map (upload_name E) fl) \<longrightarrow> length diagnostics < length fl)"
proof -
  note d = upload_loop_diagnostics[OF assms]
  have 1: "distinct (map fst diagnostics)"
    unfolding d by (rule distinct_fold_update) simp
  have 2: "set (map fst diagnostics) = set (map (upload_name E) fl)"
    unfolding d using keys_fold_update[of "upload_name E" _ fl "[]"] by simp
  have 3: "\<forall>f\<in>set fl. map_of diagnostics (upload_name E f) =
            Some (length_entry
              (saved_text E st (last (filter (\<lambda>g. upload_name E g = upload_name E f) fl))))"
    using upload_loop_last_wins[OF assms] by blast
  have len: "length diagnostics = card (upload_name E ` set fl)"
    unfolding d by (rule length_fold_update_Nil)
  have 5: "length diagnostics \<le> length fl"
    unfolding len using card_length[of "map (upload_name E) fl"] by simp
  have 6: "length diagnostics < length fl" if "\<not> distinct (map (upload_name E) fl)"
    unfolding len using that by (rule card_image_less_length)
  from 1 2 3 upload_loop_combined[OF assms] 5 6 show ?thesis by blast
qed

theorem one_entry_per_name_witness:
  "fst (upload_loop env_ok [report_pdf, report_pdf2] [] [] st_init) =
     Inr (section_text (lit ''report.pdf'') (lit ''Hello'') @
          section_text (lit ''report.pdf'') (lit ''Hi''),
          [(lit ''report.pdf'', length_entry (lit ''Hi''))]) \<and>
   length [(lit ''report.pdf'', length_entry (lit ''Hi''))]
     < length [report_pdf, report_pdf2]"
proof -
  let ?l = "upload_loop env_ok [report_pdf, report_pdf2] [] [] st_init"
  let ?c = "section_text (lit ''report.pdf'') (lit ''Hello'') @
          section_text (lit ''report.pdf'') (lit ''Hi'')"
  let ?d = "[(lit ''report.pdf'', length_entry (lit ''Hi''))]"
  have r: "fst ?l = Inr (?c, ?d)"
    using two_reports by (simp add: section_text_def length_entry_def lit_def)
  then have "?l = (Inr (?c, ?d), snd ?l)"
    by (metis prod.collapse)
  from one_entry_per_name[OF this] r show ?thesis
    by (simp add: upload_name_def env_ok_def report_pdf_def report_pdf2_def)
qed

end
